theory Spec2Isabelle
  imports Main "HOL-Library.Sublist" "HOL-Library.AList"
begin

section \<open>Values and errors\<close>

text \<open>
  The pipeline handles decoded JSON (blob records) and decoded YAML (the configured
  rules) as dynamically typed Python values. Dictionaries keep insertion order and are
  association lists looked up with \<open>map_of\<close>. A float carries its value as a ratio of
  two integers; it is only distinguished from the other values, never computed with.
  Strings are lists of 8-bit characters (the UTF-8 bytes of the Python string).
\<close>

datatype json =
    JNull
  | JBool bool
  | JInt int
  | JFloat int int
  | JStr string
  | JArr "json list"
  | JObj "(string \<times> json) list"

text \<open>The exceptions the modelled code can raise, and \<open>sys.exit\<close>.\<close>

datatype error =
  AttributeError | TypeError | KeyError | ValueError | InterfaceError | OverflowError | IOError

text \<open>Python truthiness (\<open>if x\<close>, \<open>x or y\<close>, \<open>not x\<close>).\<close>

fun truthy :: "json \<Rightarrow> bool" where
  "truthy JNull = False"
| "truthy (JBool b) = b"
| "truthy (JInt n) = (n \<noteq> 0)"
| "truthy (JFloat m d) = (m \<noteq> 0)"
| "truthy (JStr s) = (s \<noteq> [])"
| "truthy (JArr xs) = (xs \<noteq> [])"
| "truthy (JObj kvs) = (kvs \<noteq> [])"

section \<open>String helpers\<close>

text \<open>
  Characters are read as code points below 256. \<open>str.lower\<close> there changes the
  ASCII capitals and the Latin-1 capitals (all of \<open>0xC0..0xDE\<close> but the
  multiplication sign \<open>0xD7\<close>).
\<close>

definition lower_char :: "char \<Rightarrow> char" where
  "lower_char c =
     (let n = (of_char c :: nat)
      in if (65 \<le> n \<and> n \<le> 90) \<or> (192 \<le> n \<and> n \<le> 222 \<and> n \<noteq> 215)
         then char_of (n + 32) else c)"

definition py_lower :: "string \<Rightarrow> string" where
  "py_lower s = map lower_char s"

text \<open>\<open>str.isspace\<close> on one character, \<open>str.strip()\<close>, and the line boundaries
  of \<open>str.splitlines()\<close> (\<open>\r\n\<close> counts once).\<close>

definition is_space :: "char \<Rightarrow> bool" where
  "is_space c =
     (let n = (of_char c :: nat)
      in (9 \<le> n \<and> n \<le> 13) \<or> (28 \<le> n \<and> n \<le> 32) \<or> n = 133 \<or> n = 160)"

definition py_strip :: "string \<Rightarrow> string" where
  "py_strip s = rev (dropWhile is_space (rev (dropWhile is_space s)))"

definition is_linebreak :: "char \<Rightarrow> bool" where
  "is_linebreak c =
     (let n = (of_char c :: nat)
      in (10 \<le> n \<and> n \<le> 13) \<or> (28 \<le> n \<and> n \<le> 30) \<or> n = 133)"

fun splitlines_from :: "string \<Rightarrow> string \<Rightarrow> string list" where
  "splitlines_from cur [] = (if cur = [] then [] else [cur])"
| "splitlines_from cur [c] =
     (if is_linebreak c then [cur] else [cur @ [c]])"
| "splitlines_from cur (c # d # cs) =
     (if of_char c = (13::nat) \<and> of_char d = (10::nat) then cur # splitlines_from [] cs
      else if is_linebreak c then cur # splitlines_from [] (d # cs)
      else splitlines_from (cur @ [c]) (d # cs))"

definition splitlines :: "string \<Rightarrow> string list" where
  "splitlines s = splitlines_from [] s"

text \<open>
  \<open>s.replace(old, new)\<close>: the occurrences of \<open>old\<close> are found from the left and do
  not overlap. With an empty \<open>old\<close> Python puts \<open>new\<close> before every character and at
  the end.
\<close>

function replace_from :: "'a list \<Rightarrow> 'a list \<Rightarrow> 'a list \<Rightarrow> 'a list" where
  "replace_from old new [] = []"
| "replace_from old new (c # cs) =
     (if old \<noteq> [] \<and> prefix old (c # cs)
      then new @ replace_from old new (drop (length old) (c # cs))
      else c # replace_from old new cs)"
  by pat_completeness auto
termination
  by (relation "measure (\<lambda>(old, new, s). length s)") auto

definition py_replace :: "'a list \<Rightarrow> 'a list \<Rightarrow> 'a list \<Rightarrow> 'a list" where
  "py_replace old new s =
     (if old = [] then new @ concat (map (\<lambda>c. c # new) s) else replace_from old new s)"

section \<open>Redaction of SAS parameters\<close>

definition sas_keys :: "string list" where
  "sas_keys = [''sig'', ''se'', ''st'', ''sp'', ''spr'', ''sv'', ''skoid'', ''sktid'']"

text \<open>The loop of \<open>redact_sas\<close> over the keys, on a string.\<close>

definition redact_str :: "string \<Rightarrow> string" where
  "redact_str uri =
     fold (\<lambda>key repl. py_replace (key @ ''='') (key @ ''=REDACTED'') repl) sas_keys uri"

text \<open>
  \<open>redact_sas\<close> on any value: a falsy value (\<open>None\<close>, the empty string, \<open>0\<close>, ...) is
  returned as it is; \<open>.replace\<close> exists on strings only.
\<close>

fun redact_sas :: "json \<Rightarrow> error + json" where
  "redact_sas uri =
     (if \<not> truthy uri then Inr uri
      else case uri of JStr s \<Rightarrow> Inr (JStr (redact_str s)) | _ \<Rightarrow> Inl AttributeError)"

section \<open>Library functions\<close>

text \<open>
  The standard-library functions whose results the pipeline only passes on are
  parameters: \<open>bytes.decode("utf-8", errors="replace")\<close>, \<open>json.loads\<close> (with
  \<open>None\<close> for \<open>JSONDecodeError\<close>), \<open>json.dumps\<close>, \<open>str()\<close> of a value that is not
  a string, and \<open>gzip.decompress\<close> (with \<open>None\<close> when it raises).
\<close>

record pylib =
  decode :: "string \<Rightarrow> string"
  loads :: "string \<Rightarrow> json option"
  dumps :: "json \<Rightarrow> string"
  repr :: "json \<Rightarrow> string"
  gunzip :: "string \<Rightarrow> string option"

definition py_str :: "pylib \<Rightarrow> json \<Rightarrow> string" where
  "py_str lib v = (case v of JStr s \<Rightarrow> s | _ \<Rightarrow> repr lib v)"

type_synonym dict = "(string \<times> json) list"

text \<open>\<open>d.get(k)\<close>, with \<open>None\<close> for a missing key.\<close>

definition dict_get :: "dict \<Rightarrow> string \<Rightarrow> json" where
  "dict_get d k = (case map_of d k of None \<Rightarrow> JNull | Some v \<Rightarrow> v)"

section \<open>Normalisation\<close>

definition flatten :: "dict \<Rightarrow> string \<Rightarrow> error + dict" where
  "flatten d pre =
     (let p = dict_get d ''properties'';
          props = (if truthy p then p else JObj [])
      in case props of
           JObj kvs \<Rightarrow> Inr (fold (\<lambda>(k, v) out. AList.update (pre @ k) v out) kvs d)
         | _ \<Rightarrow> Inl AttributeError)"

definition guess_category :: "string \<Rightarrow> dict \<Rightarrow> json" where
  "guess_category container_name record =
     (let c = py_lower container_name
      in if sublist ''storageread'' c then JStr ''StorageRead''
         else if sublist ''storagewrite'' c then JStr ''StorageWrite''
         else if sublist ''auditevent'' c then JStr ''AuditEvent''
         else if sublist ''activity'' c then JStr ''Activity''
         else let v = dict_get record ''category''
              in if truthy v then v else JStr ''Unknown'')"

text \<open>The local function \<open>g\<close> of \<open>normalize_event\<close>, over the flattened record.\<close>

fun g :: "dict \<Rightarrow> string list \<Rightarrow> json" where
  "g r [] = JNull"
| "g r (k # ks) =
     (case map_of r k of
        Some v \<Rightarrow> if v \<noteq> JNull \<and> v \<noteq> JStr [] then v else g r ks
      | None \<Rightarrow> g r ks)"

definition normalize_event :: "pylib \<Rightarrow> string \<Rightarrow> dict \<Rightarrow> error + dict" where
  "normalize_event lib container_name rec =
     (case flatten rec ''properties.'' of
        Inl e \<Rightarrow> Inl e
      | Inr r \<Rightarrow>
          let t = g r [''time'', ''TimeGenerated''];
              op = g r [''operationName'', ''operationNameValue'',
                        ''properties.operationName'', ''properties.operation''];
              uri = g r [''requestUri'', ''properties.requestUri'', ''uri'', ''properties.uri''];
              ip = g r [''callerIpAddress'', ''properties.callerIpAddress'',
                        ''callerIp'', ''properties.callerIp''];
              ua = g r [''userAgentHeader'', ''properties.userAgentHeader'',
                        ''userAgent'', ''properties.userAgent''];
              status = g r [''statusCode'', ''properties.httpStatusCode'',
                            ''properties.statusCode'', ''resultType''];
              auth = g r [''authenticationType'', ''properties.authenticationType'',
                          ''properties.authType''];
              rid = g r [''resourceId'', ''properties.resourceId'']
          in case redact_sas uri of
               Inl e \<Rightarrow> Inl e
             | Inr redacted \<Rightarrow>
                 Inr [(''time'', t),
                      (''category'', guess_category container_name r),
                      (''operation_name'', op),
                      (''request_uri'', uri),
                      (''request_uri_redacted'', redacted),
                      (''caller_ip'', ip),
                      (''user_agent'', ua),
                      (''status_code'', if status \<noteq> JNull then JStr (py_str lib status) else JNull),
                      (''auth_type'', auth),
                      (''resource_id'', rid),
                      (''raw_json'', JStr (dumps lib (JObj rec)))])"

section \<open>Record extraction\<close>

text \<open>The elements of a decoded list that are dictionaries, in order.\<close>

fun dict_elems :: "json list \<Rightarrow> dict list" where
  "dict_elems [] = []"
| "dict_elems (JObj d # xs) = d # dict_elems xs"
| "dict_elems (x # xs) = dict_elems xs"

text \<open>The NDJSON loop of \<open>parse_blob_bytes\<close>.\<close>

fun ndjson_lines :: "pylib \<Rightarrow> string list \<Rightarrow> dict list" where
  "ndjson_lines lib [] = []"
| "ndjson_lines lib (l # ls) =
     (let line = py_strip l
      in if line = [] then ndjson_lines lib ls
         else case loads lib line of
                Some (JObj d) \<Rightarrow> d # ndjson_lines lib ls
              | _ \<Rightarrow> ndjson_lines lib ls)"

text \<open>
  \<open>parse_blob_bytes\<close> is a generator; the list is what it yields. A decoded value
  that is neither a list nor a dictionary leaves the \<open>try\<close> block without a
  \<open>return\<close> and reaches the NDJSON loop, as a \<open>JSONDecodeError\<close> does.
\<close>

definition parse_blob_bytes :: "pylib \<Rightarrow> string \<Rightarrow> dict list" where
  "parse_blob_bytes lib b =
     (let body = py_strip (decode lib b)
      in if body = [] then []
         else case loads lib body of
                Some (JObj obj) \<Rightarrow>
                  (case map_of obj ''records'' of
                     Some (JArr recs) \<Rightarrow> dict_elems recs
                   | _ \<Rightarrow> [obj])
              | Some (JArr xs) \<Rightarrow> dict_elems xs
              | _ \<Rightarrow> ndjson_lines lib (splitlines body))"







section \<open>Rules\<close>

text \<open>
  Iterating a value (\<open>for s in x\<close>): a list gives its elements, a string its
  characters, a dictionary its keys; \<open>None\<close> and numbers are not iterable.
\<close>

definition py_iter :: "json \<Rightarrow> error + json list" where
  "py_iter v =
     (case v of
        JArr xs \<Rightarrow> Inr xs
      | JStr s \<Rightarrow> Inr (map (\<lambda>c. JStr [c]) s)
      | JObj d \<Rightarrow> Inr (map (\<lambda>kv. JStr (fst kv)) d)
      | _ \<Rightarrow> Inl TypeError)"

text \<open>
  \<open>all(s.lower() in val_l for s in xs)\<close> and \<open>any(...)\<close>: both stop at the first
  element that decides, so a later element without \<open>.lower\<close> is not reached.
\<close>

fun all_in :: "string \<Rightarrow> json list \<Rightarrow> error + bool" where
  "all_in val_l [] = Inr True"
| "all_in val_l (JStr s # xs) =
     (if sublist (py_lower s) val_l then all_in val_l xs else Inr False)"
| "all_in val_l (x # xs) = Inl AttributeError"

fun any_in :: "string \<Rightarrow> json list \<Rightarrow> error + bool" where
  "any_in val_l [] = Inr False"
| "any_in val_l (JStr s # xs) =
     (if sublist (py_lower s) val_l then Inr True else any_in val_l xs)"
| "any_in val_l (x # xs) = Inl AttributeError"

text \<open>
  \<open>ev.get(field)\<close> for a truthy \<open>field\<close>: the keys of an event are strings, so a
  number finds nothing, and a list or a dictionary is not hashable.
\<close>

definition ev_get :: "dict \<Rightarrow> json \<Rightarrow> error + json" where
  "ev_get ev field =
     (case field of
        JStr k \<Rightarrow> Inr (dict_get ev k)
      | JArr _ \<Rightarrow> Inl TypeError
      | JObj _ \<Rightarrow> Inl TypeError
      | _ \<Rightarrow> Inr JNull)"

text \<open>
  The two membership blocks of \<open>event_matches\<close>; \<open>Inr True\<close> means that the block
  did not return \<open>False\<close>.
\<close>

definition all_block :: "dict \<Rightarrow> string \<Rightarrow> error + bool" where
  "all_block contains val_l =
     (case map_of contains ''all'' of
        None \<Rightarrow> Inr True
      | Some xs \<Rightarrow> (case py_iter xs of Inl e \<Rightarrow> Inl e | Inr ys \<Rightarrow> all_in val_l ys))"

definition any_block :: "dict \<Rightarrow> string \<Rightarrow> error + bool" where
  "any_block contains val_l =
     (case map_of contains ''any'' of
        None \<Rightarrow> Inr True
      | Some xs \<Rightarrow> (case py_iter xs of Inl e \<Rightarrow> Inl e | Inr ys \<Rightarrow> any_in val_l ys))"

text \<open>
  \<open>event_matches\<close>. \<open>.get\<close> exists on dictionaries only. Values are compared
  structurally, which is Python's \<open>!=\<close> whenever both sides are strings.
\<close>

definition event_matches :: "pylib \<Rightarrow> json \<Rightarrow> dict \<Rightarrow> error + bool" where
  "event_matches lib rule ev =
     (case rule of
        JObj r \<Rightarrow>
          (case (case map_of r ''when'' of None \<Rightarrow> JObj [] | Some w \<Rightarrow> w) of
             JObj when \<Rightarrow>
               let cat = dict_get when ''category''
               in if truthy cat \<and> dict_get ev ''category'' \<noteq> cat then Inr False
                  else
                    let contains = dict_get when ''contains''
                    in if truthy contains then
                         (case contains of
                            JObj cts \<Rightarrow>
                              let field = dict_get cts ''field''
                              in if \<not> truthy field then Inr False
                                 else
                                   (case ev_get ev field of
                                      Inl e \<Rightarrow> Inl e
                                    | Inr got \<Rightarrow>
                                        let val = (if truthy got then got else JStr []);
                                            val_l = py_lower (py_str lib val)
                                        in case all_block cts val_l of
                                             Inl e \<Rightarrow> Inl e
                                           | Inr False \<Rightarrow> Inr False
                                           | Inr True \<Rightarrow>
                                               (case any_block cts val_l of
                                                  Inl e \<Rightarrow> Inl e
                                                | Inr False \<Rightarrow> Inr False
                                                | Inr True \<Rightarrow> Inr True))
                          | _ \<Rightarrow> Inl AttributeError)
                       else Inr True
           | _ \<Rightarrow> Inl AttributeError)
      | _ \<Rightarrow> Inl AttributeError)"

text \<open>
  A rule of the shape the configuration documents: a dictionary whose \<open>when\<close>, if
  given, is a dictionary; \<open>category\<close> and \<open>field\<close>, if given, are strings; \<open>all\<close> and
  \<open>any\<close>, if given, are lists of strings.
\<close>

definition str_list :: "json \<Rightarrow> bool" where
  "str_list v = (case v of JArr xs \<Rightarrow> list_all (\<lambda>x. case x of JStr _ \<Rightarrow> True | _ \<Rightarrow> False) xs
                         | _ \<Rightarrow> False)"

definition opt_field :: "dict \<Rightarrow> string \<Rightarrow> (json \<Rightarrow> bool) \<Rightarrow> bool" where
  "opt_field d k ok = (case map_of d k of None \<Rightarrow> True | Some v \<Rightarrow> ok v)"

definition is_str :: "json \<Rightarrow> bool" where
  "is_str v = (case v of JStr _ \<Rightarrow> True | _ \<Rightarrow> False)"

definition contains_typed :: "json \<Rightarrow> bool" where
  "contains_typed v =
     (case v of
        JObj cts \<Rightarrow> opt_field cts ''field'' is_str \<and> opt_field cts ''all'' str_list
                    \<and> opt_field cts ''any'' str_list
      | _ \<Rightarrow> False)"

definition when_typed :: "json \<Rightarrow> bool" where
  "when_typed v =
     (case v of
        JObj when \<Rightarrow> opt_field when ''category'' is_str \<and> opt_field when ''contains'' contains_typed
      | _ \<Rightarrow> False)"

definition rule_typed :: "json \<Rightarrow> bool" where
  "rule_typed rule = (case rule of JObj r \<Rightarrow> opt_field r ''when'' when_typed | _ \<Rightarrow> False)"

section \<open>Blob listing and download\<close>

text \<open>
  What \<open>list_blobs\<close> gives for one item: its name, its modification time (with the
  flag whether the time carries a time zone) and its etag. Times are seconds.
\<close>

record blob_props =
  b_name :: string
  b_last_modified :: "(int \<times> bool) option"
  b_etag :: "string option"

text \<open>
  The world outside during one cycle: per container the items its listing yields (up
  to the point where the listing fails, if it does: \<open>iter_blobs\<close> only prints a
  warning then), the result of reading a blob, the clock, and the environment variable
  \<open>AZURE_STORAGE_CONNECTION_STRING_LOGS\<close>. Building the client and opening the
  database are taken to succeed.
\<close>

record env =
  list_blobs :: "string \<Rightarrow> blob_props list"
  readall :: "string \<Rightarrow> string \<Rightarrow> error + string"
  clock :: int
  conn_env :: "string option"

record meta =
  container :: string
  blob_name :: string
  etag :: "string option"

definition is_stale :: "int \<Rightarrow> blob_props \<Rightarrow> bool" where
  "is_stale cutoff b =
     (case b_last_modified b of
        Some (t, tz) \<Rightarrow> tz \<and> t < cutoff
      | None \<Rightarrow> False)"

definition iter_blobs :: "env \<Rightarrow> string list \<Rightarrow> int \<Rightarrow> meta list" where
  "iter_blobs e cs since =
     (let cutoff = clock e - since * 60
      in concat (map (\<lambda>c. map (\<lambda>b. \<lparr>container = c, blob_name = b_name b, etag = b_etag b\<rparr>)
                             (filter (\<lambda>b. \<not> is_stale cutoff b) (list_blobs e c))) cs))"

definition download_blob :: "pylib \<Rightarrow> env \<Rightarrow> string \<Rightarrow> string \<Rightarrow> error + string" where
  "download_blob lib e c n =
     (case readall e c n of
        Inl err \<Rightarrow> Inl err
      | Inr data \<Rightarrow>
          if suffix ''.gz'' n
          then (case gunzip lib data of Some d \<Rightarrow> Inr d | None \<Rightarrow> Inr data)
          else Inr data)"

section \<open>The event store\<close>

text \<open>
  The three tables, the two \<open>AUTOINCREMENT\<close> counters, and the sequence of committed
  transactions: every method of \<open>EventStore\<close> that writes ends with
  \<open>self.conn.commit()\<close>, and \<open>journal\<close> records these commits in order. The timestamp
  columns are left out. \<open>console\<close> and \<open>webhook_posts\<close> are what the dispatcher
  emitted.
\<close>

record event_row =
  row_id :: nat
  row_cols :: "json list"
  row_container :: string
  row_blob :: string

record alert_row =
  alert_id :: nat
  alert_rule :: json
  alert_event :: nat

datatype commit =
    EventCommitted nat string string
  | AlertCommitted json nat
  | BlobMarked string string

record world =
  db_events :: "event_row list"
  seq_events :: nat
  db_alerts :: "alert_row list"
  seq_alerts :: nat
  db_processed :: "((string \<times> string) \<times> string option) list"
  journal :: "commit list"
  console :: "(json \<times> dict) list"
  webhook_posts :: "(json \<times> dict) list"

definition init_world :: world where
  "init_world = \<lparr>db_events = [], seq_events = 0, db_alerts = [], seq_alerts = 0,
                  db_processed = [], journal = [], console = [], webhook_posts = []\<rparr>"

text \<open>
  \<open>sqlite3\<close> binds \<open>None\<close>, integers of 64 bits, floats and strings; a list or a
  dictionary is refused, and so is a larger integer.
\<close>

fun sqlite_bind :: "json \<Rightarrow> error option" where
  "sqlite_bind (JArr xs) = Some InterfaceError"
| "sqlite_bind (JObj d) = Some InterfaceError"
| "sqlite_bind (JInt n) = (if - (2 ^ 63) \<le> n \<and> n < 2 ^ 63 then None else Some OverflowError)"
| "sqlite_bind v = None"

fun bind_all :: "json list \<Rightarrow> error option" where
  "bind_all [] = None"
| "bind_all (p # ps) = (case sqlite_bind p of Some e \<Rightarrow> Some e | None \<Rightarrow> bind_all ps)"

definition event_columns :: "string list" where
  "event_columns = [''time'', ''category'', ''operation_name'', ''request_uri'',
     ''request_uri_redacted'', ''caller_ip'', ''user_agent'', ''status_code'', ''auth_type'',
     ''resource_id'', ''raw_json'']"

definition blob_processed :: "world \<Rightarrow> string \<Rightarrow> string \<Rightarrow> string option \<Rightarrow> bool" where
  "blob_processed w c n tag = (map_of (db_processed w) (c, n) \<noteq> None)"

definition mark_blob :: "world \<Rightarrow> string \<Rightarrow> string \<Rightarrow> string option \<Rightarrow> world" where
  "mark_blob w c n tag =
     w\<lparr>db_processed := AList.update (c, n) tag (db_processed w),
       journal := journal w @ [BlobMarked c n]\<rparr>"

definition add_event :: "world \<Rightarrow> string \<Rightarrow> string \<Rightarrow> dict \<Rightarrow> error + (nat \<times> world)" where
  "add_event w c n ev =
     (let cols = map (dict_get ev) event_columns
      in case bind_all cols of
           Some e \<Rightarrow> Inl e
         | None \<Rightarrow>
             let i = Suc (seq_events w)
             in Inr (i, w\<lparr>db_events := db_events w @
                             [\<lparr>row_id = i, row_cols = cols, row_container = c, row_blob = n\<rparr>],
                           seq_events := i,
                           journal := journal w @ [EventCommitted i c n]\<rparr>))"

definition add_alert :: "world \<Rightarrow> json \<Rightarrow> nat \<Rightarrow> error + world" where
  "add_alert w rule_name event_id =
     (case bind_all [rule_name] of
        Some e \<Rightarrow> Inl e
      | None \<Rightarrow>
          let i = Suc (seq_alerts w)
          in Inr (w\<lparr>db_alerts := db_alerts w @
                        [\<lparr>alert_id = i, alert_rule = rule_name, alert_event = event_id\<rparr>],
                      seq_alerts := i,
                      journal := journal w @ [AlertCommitted rule_name event_id]\<rparr>))"

section \<open>Configuration, dispatcher and the runner\<close>

record cfg =
  cfg_connection_string :: "string option"
  cfg_containers :: "string list"
  cfg_since_minutes :: int
  cfg_interval_seconds :: int
  cfg_rules :: "json list"
  cfg_stdout :: bool
  cfg_webhook_enabled :: bool
  cfg_webhook_url :: string

text \<open>
  \<open>AlertDispatcher.send\<close>: a line on the console, and a post to the webhook whose
  failure is caught inside \<open>send\<close>. It does not touch the store and does not raise.
\<close>

definition send :: "cfg \<Rightarrow> json \<Rightarrow> dict \<Rightarrow> world \<Rightarrow> world" where
  "send c rule_name ev w =
     (let w1 = (if cfg_stdout c then w\<lparr>console := console w @ [(rule_name, ev)]\<rparr> else w)
      in if cfg_webhook_enabled c \<and> cfg_webhook_url c \<noteq> []
         then w1\<lparr>webhook_posts := webhook_posts w1 @ [(rule_name, ev)]\<rparr>
         else w1)"

text \<open>\<open>rule["name"]\<close>, reached only after \<open>event_matches\<close> returned for the rule.\<close>

definition rule_name_of :: "json \<Rightarrow> error + json" where
  "rule_name_of rule =
     (case rule of
        JObj r \<Rightarrow> (case map_of r ''name'' of None \<Rightarrow> Inl KeyError | Some v \<Rightarrow> Inr v)
      | _ \<Rightarrow> Inl TypeError)"

text \<open>
  The body of the second \<open>try\<close> of \<open>run_once\<close>. An exception leaves the loops; what was
  committed before it stays, so both functions return the world they reached together
  with the exception, if any.
\<close>

fun apply_rules ::
  "pylib \<Rightarrow> cfg \<Rightarrow> json list \<Rightarrow> dict \<Rightarrow> nat \<Rightarrow> world \<Rightarrow> error option \<times> world" where
  "apply_rules lib c [] ev ev_id w = (None, w)"
| "apply_rules lib c (rule # rs) ev ev_id w =
     (case event_matches lib rule ev of
        Inl e \<Rightarrow> (Some e, w)
      | Inr False \<Rightarrow> apply_rules lib c rs ev ev_id w
      | Inr True \<Rightarrow>
          (case rule_name_of rule of
             Inl e \<Rightarrow> (Some e, w)
           | Inr nm \<Rightarrow>
               (case add_alert w nm ev_id of
                  Inl e \<Rightarrow> (Some e, w)
                | Inr w1 \<Rightarrow> apply_rules lib c rs ev ev_id (send c nm ev w1))))"

fun process_records ::
  "pylib \<Rightarrow> cfg \<Rightarrow> string \<Rightarrow> string \<Rightarrow> dict list \<Rightarrow> world \<Rightarrow> error option \<times> world" where
  "process_records lib c cn n [] w = (None, w)"
| "process_records lib c cn n (rec # recs) w =
     (case normalize_event lib cn rec of
        Inl e \<Rightarrow> (Some e, w)
      | Inr ev \<Rightarrow>
          (case add_event w cn n ev of
             Inl e \<Rightarrow> (Some e, w)
           | Inr (ev_id, w1) \<Rightarrow>
               (case apply_rules lib c (cfg_rules c) ev ev_id w1 of
                  (Some e, w2) \<Rightarrow> (Some e, w2)
                | (None, w2) \<Rightarrow> process_records lib c cn n recs w2)))"

text \<open>One turn of the loop over \<open>reader.iter_blobs()\<close>.\<close>

definition handle_blob :: "pylib \<Rightarrow> cfg \<Rightarrow> env \<Rightarrow> meta \<Rightarrow> world \<Rightarrow> world" where
  "handle_blob lib c e m w =
     (if blob_processed w (container m) (blob_name m) (etag m) then w
      else case download_blob lib e (container m) (blob_name m) of
             Inl err \<Rightarrow> w
           | Inr raw \<Rightarrow>
               mark_blob
                 (snd (process_records lib c (container m) (blob_name m)
                         (parse_blob_bytes lib raw) w))
                 (container m) (blob_name m) (etag m))"

fun run_blobs :: "pylib \<Rightarrow> cfg \<Rightarrow> env \<Rightarrow> meta list \<Rightarrow> world \<Rightarrow> world" where
  "run_blobs lib c e [] w = w"
| "run_blobs lib c e (m # ms) w = run_blobs lib c e ms (handle_blob lib c e m w)"

text \<open>
  The connection string is the configured one unless that is missing or empty, then
  the environment's. \<open>Inl n\<close> is \<open>sys.exit(n)\<close>.
\<close>

definition conn_str :: "cfg \<Rightarrow> env \<Rightarrow> string option" where
  "conn_str c e =
     (case cfg_connection_string c of
        Some s \<Rightarrow> if s \<noteq> [] then Some s else conn_env e
      | None \<Rightarrow> conn_env e)"

definition run_once :: "pylib \<Rightarrow> cfg \<Rightarrow> env \<Rightarrow> world \<Rightarrow> nat + world" where
  "run_once lib c e w =
     (case conn_str c e of
        None \<Rightarrow> Inl 2
      | Some s \<Rightarrow>
          if s = [] then Inl 2
          else Inr (run_blobs lib c e
                      (iter_blobs e (cfg_containers c) (cfg_since_minutes c)) w))"

section \<open>The command line\<close>

record args =
  arg_once :: bool
  arg_loop :: bool
  arg_interval :: "int option"

text \<open>How the process ends, if it does: \<open>main\<close> returns, \<open>sys.exit\<close>, or an exception
  nobody catches.\<close>

datatype outcome = Returned world | Exited nat world | Raised error world

text \<open>
  \<open>args.interval or int(...)\<close>: an interval of \<open>0\<close> counts as not given.
\<close>

definition interval_of :: "args \<Rightarrow> cfg \<Rightarrow> int" where
  "interval_of a c =
     (case arg_interval a of
        Some i \<Rightarrow> if i \<noteq> 0 then i else cfg_interval_seconds c
      | None \<Rightarrow> cfg_interval_seconds c)"

text \<open>
  The \<open>while True\<close> loop. Cycle \<open>k\<close> meets the outside world \<open>envs k\<close>.
  \<open>time.sleep\<close> raises \<open>ValueError\<close> for a negative length and otherwise only lets
  time pass. The loop has no exit of its own, so not returning is the value \<open>None\<close>.
\<close>

partial_function (option) main_loop ::
  "pylib \<Rightarrow> cfg \<Rightarrow> (nat \<Rightarrow> env) \<Rightarrow> int \<Rightarrow> nat \<Rightarrow> world \<Rightarrow> outcome option" where
  "main_loop lib c envs interval k w =
     (case run_once lib c (envs k) w of
        Inl code \<Rightarrow> Some (Exited code w)
      | Inr w1 \<Rightarrow>
          if interval < 0 then Some (Raised ValueError w1)
          else main_loop lib c envs interval (Suc k) w1)"

definition main :: "pylib \<Rightarrow> args \<Rightarrow> cfg \<Rightarrow> (nat \<Rightarrow> env) \<Rightarrow> world \<Rightarrow> outcome option" where
  "main lib a c envs w =
     (if arg_once a \<and> arg_loop a then Some (Exited 2 w)
      else if arg_once a then
        (case run_once lib c (envs 0) w of
           Inl code \<Rightarrow> Some (Exited code w)
         | Inr w1 \<Rightarrow> Some (Returned w1))
      else main_loop lib c envs (interval_of a c) 0 w)"

section \<open>Notions used in the statements\<close>

text \<open>A usable connection string: configured or in the environment, and not empty.\<close>

definition has_conn :: "cfg \<Rightarrow> env \<Rightarrow> bool" where
  "has_conn c e = (case conn_str c e of None \<Rightarrow> False | Some s \<Rightarrow> s \<noteq> [])"

text \<open>The download of a listed blob succeeds.\<close>

definition downloads :: "pylib \<Rightarrow> env \<Rightarrow> meta \<Rightarrow> bool" where
  "downloads lib e m = (\<exists>raw. download_blob lib e (container m) (blob_name m) = Inr raw)"

text \<open>
  The order of commits. \<open>ok_next j x\<close> says that the commit \<open>x\<close> may follow the commits
  \<open>j\<close>: an event is committed under a fresh id while its blob has no marker, and an alert
  names an event that is committed already and whose blob has no marker yet.
  \<open>wf_seg\<close> asks this of every commit of a sequence.
\<close>

fun ok_next :: "commit list \<Rightarrow> commit \<Rightarrow> bool" where
  "ok_next j (EventCommitted i c n) =
     (BlobMarked c n \<notin> set j \<and> (\<forall>c' n'. EventCommitted i c' n' \<notin> set j))"
| "ok_next j (AlertCommitted r i) =
     (\<exists>c n. EventCommitted i c n \<in> set j \<and> BlobMarked c n \<notin> set j)"
| "ok_next j (BlobMarked c n) = True"

definition wf_seg :: "commit list \<Rightarrow> bool" where
  "wf_seg j = (\<forall>k < length j. ok_next (take k j) (j ! k))"

text \<open>
  \<open>marker_last j\<close>: in \<open>j\<close>, every commit of an event of a blob, and every commit of
  an alert on such an event, stands before the commit of the blob's marker.
  \<open>alerts_refer j\<close>: every alert in \<open>j\<close> names an event committed before it.
\<close>

definition marker_last :: "commit list \<Rightarrow> bool" where
  "marker_last j =
     (\<forall>k < length j. \<forall>c n. j ! k = BlobMarked c n \<longrightarrow>
        (\<forall>i < length j.
           (\<forall>x. j ! i = EventCommitted x c n \<longrightarrow> i < k)
           \<and> (\<forall>r x. j ! i = AlertCommitted r x \<and> EventCommitted x c n \<in> set j \<longrightarrow> i < k)))"

definition alerts_refer :: "commit list \<Rightarrow> bool" where
  "alerts_refer j =
     (\<forall>i < length j. \<forall>r x. j ! i = AlertCommitted r x \<longrightarrow>
        (\<exists>i' < i. \<exists>c n. j ! i' = EventCommitted x c n))"

text \<open>
  \<open>cycle_trace w w1 new\<close>: \<open>new\<close> is what was committed between the worlds \<open>w\<close> and
  \<open>w1\<close>, and the three tables grew by exactly these commits.
\<close>

definition cycle_trace :: "world \<Rightarrow> world \<Rightarrow> commit list \<Rightarrow> bool" where
  "cycle_trace w w1 new =
     (journal w1 = journal w @ new
      \<and> map (\<lambda>r. (row_id r, row_container r, row_blob r)) (db_events w1)
          = map (\<lambda>r. (row_id r, row_container r, row_blob r)) (db_events w)
            @ [(i, c, n). EventCommitted i c n \<leftarrow> new]
      \<and> map (\<lambda>a. (alert_rule a, alert_event a)) (db_alerts w1)
          = map (\<lambda>a. (alert_rule a, alert_event a)) (db_alerts w)
            @ [(r, i). AlertCommitted r i \<leftarrow> new]
      \<and> (\<forall>c n t. blob_processed w1 c n t \<longleftrightarrow>
            blob_processed w c n t \<or> BlobMarked c n \<in> set new))"

definition seg_ok :: "world \<Rightarrow> world \<Rightarrow> commit list \<Rightarrow> bool" where
  "seg_ok w w1 new =
     (cycle_trace w w1 new \<and> wf_seg new
      \<and> (\<forall>i c n. EventCommitted i c n \<in> set new \<longrightarrow> i \<le> seq_events w1))"

section \<open>A small configuration\<close>

text \<open>
  One container with three blobs: \<open>a.json\<close> holds two NDJSON records, the download of
  \<open>b.json\<close> fails, and the record of \<open>c.json\<close> has a number under \<open>properties\<close>, so
  that normalising it raises. One rule asks for \<open>/public/\<close> in the request URI.
\<close>

definition toy_loads :: "string \<Rightarrow> json option" where
  \<open>toy_loads s =
     (if s = ''{"uri": "/public/a"}'' then Some (JObj [(''uri'', JStr ''/public/a'')])
      else if s = ''{"uri": "/private/b"}'' then Some (JObj [(''uri'', JStr ''/private/b'')])
      else if s = ''{"properties": 1}'' then Some (JObj [(''properties'', JInt 1)])
      else if s = ''{}'' then Some (JObj [])
      else None)\<close>

definition toy_lib :: pylib where
  "toy_lib = \<lparr>decode = (\<lambda>b. b), loads = toy_loads, dumps = (\<lambda>v. ''''),
              repr = (\<lambda>v. ''''), gunzip = (\<lambda>b. None)\<rparr>"

definition two_lines :: string where
  \<open>two_lines = ''{"uri": "/public/a"}'' @ [CHR 0x0A] @ ''{"uri": "/private/b"}''\<close>

definition toy_env :: env where
  \<open>toy_env =
     \<lparr>list_blobs = (\<lambda>c. if c = ''insights-logs-storageread''
                          then [\<lparr>b_name = ''a.json'', b_last_modified = None, b_etag = None\<rparr>,
                                \<lparr>b_name = ''b.json'', b_last_modified = None, b_etag = None\<rparr>,
                                \<lparr>b_name = ''c.json'', b_last_modified = None, b_etag = None\<rparr>]
                          else []),
      readall = (\<lambda>c n. if n = ''a.json'' then Inr two_lines
                        else if n = ''b.json'' then Inl IOError
                        else Inr ''{"properties": 1}''),
      clock = 0,
      conn_env = None\<rparr>\<close>

definition public_access :: json where
  "public_access =
     JObj [(''name'', JStr ''public-access''),
           (''when'', JObj [(''category'', JStr ''StorageRead''),
                            (''contains'', JObj [(''field'', JStr ''request_uri''),
                                                 (''any'', JArr [JStr ''/public/''])])])]"

definition toy_cfg :: cfg where
  "toy_cfg =
     \<lparr>cfg_connection_string = Some ''UseDevelopmentStorage=true'',
      cfg_containers = [''insights-logs-storageread''],
      cfg_since_minutes = 1440,
      cfg_interval_seconds = 60,
      cfg_rules = [public_access],
      cfg_stdout = True,
      cfg_webhook_enabled = False,
      cfg_webhook_url = ''''\<rparr>"

definition toy_event :: "string \<Rightarrow> dict" where
  "toy_event uri =
     [(''time'', JNull), (''category'', JStr ''StorageRead''), (''operation_name'', JNull),
      (''request_uri'', JStr uri), (''request_uri_redacted'', JStr uri), (''caller_ip'', JNull),
      (''user_agent'', JNull), (''status_code'', JNull), (''auth_type'', JNull),
      (''resource_id'', JNull), (''raw_json'', JStr [])]"

definition toy_world :: world where
  "toy_world =
     \<lparr>db_events =
        [\<lparr>row_id = 1, row_cols = map snd (toy_event ''/public/a''),
          row_container = ''insights-logs-storageread'', row_blob = ''a.json''\<rparr>,
         \<lparr>row_id = 2, row_cols = map snd (toy_event ''/private/b''),
          row_container = ''insights-logs-storageread'', row_blob = ''a.json''\<rparr>],
      seq_events = 2,
      db_alerts = [\<lparr>alert_id = 1, alert_rule = JStr ''public-access'', alert_event = 1\<rparr>],
      seq_alerts = 1,
      db_processed = [((''insights-logs-storageread'', ''a.json''), None),
                      ((''insights-logs-storageread'', ''c.json''), None)],
      journal = [EventCommitted 1 ''insights-logs-storageread'' ''a.json'',
                 AlertCommitted (JStr ''public-access'') 1,
                 EventCommitted 2 ''insights-logs-storageread'' ''a.json'',
                 BlobMarked ''insights-logs-storageread'' ''a.json'',
                 BlobMarked ''insights-logs-storageread'' ''c.json''],
      console = [(JStr ''public-access'', toy_event ''/public/a'')],
      webhook_posts = []\<rparr>"

definition toy_envs :: "nat \<Rightarrow> env" where
  "toy_envs k = toy_env"

definition no_flags :: args where
  "no_flags = \<lparr>arg_once = False, arg_loop = False, arg_interval = None\<rparr>"

definition once_flag :: args where
  "once_flag = \<lparr>arg_once = True, arg_loop = False, arg_interval = None\<rparr>"

definition both_flags :: args where
  "both_flags = \<lparr>arg_once = True, arg_loop = True, arg_interval = None\<rparr>"

definition rule_any_empty :: json where
  "rule_any_empty =
     JObj [(''name'', JStr ''r''),
           (''when'', JObj [(''contains'', JObj [(''field'', JStr ''request_uri''),
                                                 (''any'', JArr [])])])]"

section \<open>Properties of the replacement\<close>







lemma replace_from_miss:
  "\<not> prefix old (c # cs) \<Longrightarrow> replace_from old new (c # cs) = c # replace_from old new cs"
  by simp





section \<open>Redaction\<close>











text \<open>
  C1. The redacted URI still holds the secret: for the request URI
  \<open>/c/b?sv=1&sig=ABC123\<close> the field \<open>request_uri_redacted\<close> is
  \<open>/c/b?sv=REDACTED1&sig=REDACTEDABC123\<close>, in which the signature \<open>ABC123\<close> can be
  read.
\<close>

theorem redact_sas_keeps_secret:
  "redact_sas (JStr ''/c/b?sv=1&sig=ABC123'') = Inr (JStr ''/c/b?sv=REDACTED1&sig=REDACTEDABC123'')
   \<and> sublist ''ABC123'' ''/c/b?sv=REDACTED1&sig=REDACTEDABC123''"
  by (simp add: redact_str_def sas_keys_def py_replace_def sublist_Cons_right)

section \<open>Rules\<close>

lemma any_in_Nil_block:
  "map_of cts ''any'' = Some (JArr []) \<Longrightarrow> any_block cts v = Inr False"
  by (simp add: any_block_def py_iter_def)

lemma all_in_typed:
  "list_all (\<lambda>x. case x of JStr _ \<Rightarrow> True | _ \<Rightarrow> False) xs \<Longrightarrow> \<exists>b. all_in v xs = Inr b"
proof (induction xs)
  case Nil
  show ?case by auto
next
  case (Cons x xs)
  then show ?case by (cases x) auto
qed

lemma all_block_typed:
  "opt_field cts ''all'' str_list \<Longrightarrow> \<exists>b. all_block cts v = Inr b"
  using all_in_typed
  by (auto simp: opt_field_def all_block_def str_list_def py_iter_def split: option.splits json.splits)

lemma ev_get_typed:
  "opt_field cts ''field'' is_str \<Longrightarrow> \<exists>x. ev_get ev (dict_get cts ''field'') = Inr x"
  by (auto simp: opt_field_def is_str_def ev_get_def dict_get_def split: option.splits json.splits)

lemma event_matches_unfold:
  assumes "rule = JObj r" "map_of r ''when'' = Some (JObj when)"
    "map_of when ''contains'' = Some (JObj cts)" "cts \<noteq> []"
  shows "event_matches lib rule ev =
     (if truthy (dict_get when ''category'') \<and> dict_get ev ''category'' \<noteq> dict_get when ''category''
      then Inr False
      else if \<not> truthy (dict_get cts ''field'') then Inr False
      else case ev_get ev (dict_get cts ''field'') of
             Inl e \<Rightarrow> Inl e
           | Inr got \<Rightarrow>
               (case all_block cts (py_lower (py_str lib (if truthy got then got else JStr []))) of
                  Inl e \<Rightarrow> Inl e
                | Inr False \<Rightarrow> Inr False
                | Inr True \<Rightarrow>
                    (case any_block cts (py_lower (py_str lib (if truthy got then got else JStr []))) of
                       Inl e \<Rightarrow> Inl e
                     | Inr False \<Rightarrow> Inr False
                     | Inr True \<Rightarrow> Inr True)))"
  using assms by (simp add: event_matches_def dict_get_def Let_def split: sum.split)

text \<open>
  C7. A rule whose contains-clause gives \<open>any\<close> as the empty list matches no event:
  \<open>event_matches\<close> never returns \<open>True\<close> for it, and returns \<open>False\<close> for every
  event when the rule has the documented shape (for a rule of another shape an
  exception may be raised before the \<open>any\<close> block is reached).
\<close>

theorem empty_any_no_match:
  assumes "rule = JObj r" and "map_of r ''when'' = Some (JObj when)"
    and "map_of when ''contains'' = Some (JObj cts)"
    and "map_of cts ''any'' = Some (JArr [])"
  shows "event_matches lib rule ev \<noteq> Inr True
         \<and> (rule_typed rule \<longrightarrow> event_matches lib rule ev = Inr False)"
proof -
  have ne: "cts \<noteq> []" using assms(4) by auto
  note u = event_matches_unfold[OF assms(1-3) ne, of lib ev]
  have a: "\<And>v. any_block cts v = Inr False" using assms(4) by (rule any_in_Nil_block)
  have 1: "event_matches lib rule ev \<noteq> Inr True"
    unfolding u by (simp add: a split: sum.splits bool.splits)
  have 2: "event_matches lib rule ev = Inr False" if t: "rule_typed rule"
  proof -
    have ct: "contains_typed (JObj cts)"
      using t assms(1-3) by (simp add: rule_typed_def when_typed_def opt_field_def)
    then have f: "opt_field cts ''field'' is_str" and al: "opt_field cts ''all'' str_list"
      by (simp_all add: contains_typed_def)
    obtain got where g: "ev_get ev (dict_get cts ''field'') = Inr got"
      using ev_get_typed[OF f] by blast
    obtain b where b: "all_block cts (py_lower (py_str lib (if truthy got then got else JStr []))) = Inr b"
      using all_block_typed[OF al] by blast
    show ?thesis unfolding u by (simp add: g b a split: bool.split)
  qed
  from 1 2 show ?thesis by blast
qed

theorem empty_any_no_match_witness:
  "rule_typed rule_any_empty
   \<and> event_matches toy_lib rule_any_empty [(''request_uri'', JStr ''/public/x'')] = Inr False"
proof -
  have t: "rule_typed rule_any_empty"
    by (simp add: rule_any_empty_def rule_typed_def when_typed_def contains_typed_def
        opt_field_def is_str_def str_list_def)
  from empty_any_no_match[of rule_any_empty _ _ _ toy_lib "[(''request_uri'', JStr ''/public/x'')]"]
  show ?thesis using t by (simp add: rule_any_empty_def)
qed




section \<open>Record extraction refines the policy\<close>







section \<open>The ledger\<close>

lemma send_db [simp]:
  "db_processed (send c r ev w) = db_processed w"
  "db_events (send c r ev w) = db_events w"
  "db_alerts (send c r ev w) = db_alerts w"
  "seq_events (send c r ev w) = seq_events w"
  "journal (send c r ev w) = journal w"
  by (simp_all add: send_def Let_def)

lemma blob_processed_send [simp]:
  "blob_processed (send c r ev w) cn n t = blob_processed w cn n t"
  by (simp add: blob_processed_def)

lemma add_alert_processed:
  "add_alert w r i = Inr w1 \<Longrightarrow> db_processed w1 = db_processed w"
  by (auto simp: add_alert_def Let_def split: option.splits)

lemma add_event_processed:
  "add_event w cn n ev = Inr (i, w1) \<Longrightarrow> db_processed w1 = db_processed w"
  by (auto simp: add_event_def Let_def split: option.splits)

lemma apply_rules_processed:
  "db_processed (snd (apply_rules lib c rs ev i w)) = db_processed w"
proof (induction rs arbitrary: w)
  case Nil
  show ?case by simp
next
  case (Cons rule rs)
  show ?case
    by (auto simp: Cons add_alert_processed split: sum.split bool.split)
qed

lemma process_records_processed:
  "db_processed (snd (process_records lib c cn n recs w)) = db_processed w"
proof (induction recs arbitrary: w)
  case Nil
  show ?case by simp
next
  case (Cons rec recs)
  show ?case
  proof (cases "normalize_event lib cn rec")
    case (Inl e)
    then show ?thesis by simp
  next
    case (Inr ev)
    show ?thesis
    proof (cases "add_event w cn n ev")
      case (Inl e)
      with Inr show ?thesis by simp
    next
      case r: (Inr p)
      obtain i w1 where p: "p = (i, w1)" by (cases p)
      have 1: "db_processed w1 = db_processed w"
        using r p add_event_processed by blast
      obtain x w2 where a: "apply_rules lib c (cfg_rules c) ev i w1 = (x, w2)"
        by (cases "apply_rules lib c (cfg_rules c) ev i w1")
      have 2: "db_processed w2 = db_processed w1"
        using apply_rules_processed[of lib c "cfg_rules c" ev i w1] a by simp
      show ?thesis
        using Inr r p a 1 2 Cons[of w2] by (cases x) simp_all
    qed
  qed
qed

lemma blob_processed_mark:
  "blob_processed (mark_blob w c n t) c' n' t' \<longleftrightarrow> (c' = c \<and> n' = n) \<or> blob_processed w c' n' t'"
  by (auto simp: blob_processed_def mark_blob_def update_conv')

lemma blob_processed_cong:
  "db_processed w1 = db_processed w \<Longrightarrow> blob_processed w1 c n t = blob_processed w c n t"
  by (simp add: blob_processed_def)

lemma blob_processed_tag: "blob_processed w c n t = blob_processed w c n t'"
  by (simp add: blob_processed_def)

lemma handle_blob_processed:
  "blob_processed (handle_blob lib c e m w) cn n t \<longleftrightarrow>
     blob_processed w cn n t \<or> (container m = cn \<and> blob_name m = n \<and> downloads lib e m)"
proof (cases "blob_processed w (container m) (blob_name m) (etag m)")
  case True
  then show ?thesis
    by (auto simp: handle_blob_def blob_processed_def)
next
  case False
  show ?thesis
  proof (cases "download_blob lib e (container m) (blob_name m)")
    case (Inl err)
    then show ?thesis using False by (simp add: handle_blob_def downloads_def)
  next
    case (Inr raw)
    have "blob_processed (snd (process_records lib c (container m) (blob_name m)
            (parse_blob_bytes lib raw) w)) cn n t = blob_processed w cn n t"
      by (rule blob_processed_cong) (rule process_records_processed)
    then show ?thesis
      using False Inr by (auto simp: handle_blob_def downloads_def blob_processed_mark)
  qed
qed

lemma run_blobs_processed:
  "blob_processed (run_blobs lib c e ms w) cn n t \<longleftrightarrow>
     blob_processed w cn n t
     \<or> (\<exists>m \<in> set ms. container m = cn \<and> blob_name m = n \<and> downloads lib e m)"
proof (induction ms arbitrary: w)
  case Nil
  show ?case by simp
next
  case (Cons m ms)
  show ?case
    unfolding run_blobs.simps Cons handle_blob_processed by auto
qed

lemma handle_blob_skip:
  "blob_processed w (container m) (blob_name m) (etag m) \<or> \<not> downloads lib e m
   \<Longrightarrow> handle_blob lib c e m w = w"
  by (auto simp: handle_blob_def downloads_def split: sum.split)

lemma run_blobs_skip:
  "\<forall>m \<in> set ms. blob_processed w (container m) (blob_name m) (etag m) \<or> \<not> downloads lib e m
   \<Longrightarrow> run_blobs lib c e ms w = w"
  by (induction ms) (simp_all add: handle_blob_skip)

lemma run_once_cases:
  "run_once lib c e w = Inr w1 \<Longrightarrow>
     w1 = run_blobs lib c e (iter_blobs e (cfg_containers c) (cfg_since_minutes c)) w"
  by (auto simp: run_once_def split: option.splits if_splits)

lemma run_once_exit_indep:
  "run_once lib c e w = Inr w1 \<Longrightarrow>
     run_once lib c e w2 = Inr (run_blobs lib c e (iter_blobs e (cfg_containers c) (cfg_since_minutes c)) w2)"
  by (auto simp: run_once_def split: option.splits if_splits)

text \<open>
  C4. A blob that a cycle lists and that was not in the ledger before is in the ledger
  after the cycle exactly if its download succeeded. In particular, when the download
  succeeded and processing the records raised, the turn of the loop still ends with
  \<open>mark_blob\<close>, on the world the exception left.
\<close>

theorem marked_iff_downloaded:
  assumes "run_once lib c e w = Inr w1"
    and "m \<in> set (iter_blobs e (cfg_containers c) (cfg_since_minutes c))"
    and "\<not> blob_processed w (container m) (blob_name m) (etag m)"
  shows "(blob_processed w1 (container m) (blob_name m) (etag m)
            \<longleftrightarrow> (\<exists>raw. download_blob lib e (container m) (blob_name m) = Inr raw))
         \<and> (\<forall>raw err w2.
               download_blob lib e (container m) (blob_name m) = Inr raw
               \<and> process_records lib c (container m) (blob_name m) (parse_blob_bytes lib raw) w
                   = (Some err, w2)
               \<longrightarrow> handle_blob lib c e m w = mark_blob w2 (container m) (blob_name m) (etag m))"
proof -
  let ?ms = "iter_blobs e (cfg_containers c) (cfg_since_minutes c)"
  have w1: "w1 = run_blobs lib c e ?ms w" using assms(1) by (rule run_once_cases)
  have same: "downloads lib e m' = downloads lib e m"
    if "container m' = container m" "blob_name m' = blob_name m" for m'
    using that by (simp add: downloads_def)
  have "(\<exists>m' \<in> set ?ms. container m' = container m \<and> blob_name m' = blob_name m
            \<and> downloads lib e m') \<longleftrightarrow> downloads lib e m"
  proof
    assume "\<exists>m' \<in> set ?ms. container m' = container m \<and> blob_name m' = blob_name m
            \<and> downloads lib e m'"
    then obtain m' where "container m' = container m" "blob_name m' = blob_name m"
      "downloads lib e m'" by blast
    then show "downloads lib e m" using same[of m'] by simp
  next
    assume "downloads lib e m"
    then show "\<exists>m' \<in> set ?ms. container m' = container m \<and> blob_name m' = blob_name m
            \<and> downloads lib e m'" using assms(2) by blast
  qed
  then have "blob_processed w1 (container m) (blob_name m) (etag m) \<longleftrightarrow> downloads lib e m"
    unfolding w1 run_blobs_processed using assms(3) by simp
  moreover have "handle_blob lib c e m w = mark_blob w2 (container m) (blob_name m) (etag m)"
    if "download_blob lib e (container m) (blob_name m) = Inr raw"
      "process_records lib c (container m) (blob_name m) (parse_blob_bytes lib raw) w = (Some err, w2)"
    for raw err w2
    using that assms(3) by (simp add: handle_blob_def)
  ultimately show ?thesis by (simp add: downloads_def)
qed

text \<open>
  C5. If every listed blob is in the ledger already, a cycle adds no event row and no
  alert row. And a second cycle against the same listing and the same downloads changes
  nothing at all.
\<close>

theorem processed_blobs_add_nothing:
  "(\<forall>w1. (\<forall>m \<in> set (iter_blobs e (cfg_containers c) (cfg_since_minutes c)).
            blob_processed w (container m) (blob_name m) (etag m))
         \<and> run_once lib c e w = Inr w1
         \<longrightarrow> db_events w1 = db_events w \<and> db_alerts w1 = db_alerts w)
   \<and> (\<forall>w1. run_once lib c e w = Inr w1 \<longrightarrow> run_once lib c e w1 = Inr w1)"
proof -
  let ?ms = "iter_blobs e (cfg_containers c) (cfg_since_minutes c)"
  have 1: "db_events w1 = db_events w \<and> db_alerts w1 = db_alerts w"
    if a: "\<forall>m \<in> set ?ms. blob_processed w (container m) (blob_name m) (etag m)"
      and r: "run_once lib c e w = Inr w1" for w1
  proof -
    have "run_blobs lib c e ?ms w = w" using a by (intro run_blobs_skip) blast
    then show ?thesis using run_once_cases[OF r] by simp
  qed
  have 2: "run_once lib c e w1 = Inr w1" if r: "run_once lib c e w = Inr w1" for w1
  proof -
    have w1: "w1 = run_blobs lib c e ?ms w" using r by (rule run_once_cases)
    have "\<forall>m \<in> set ?ms. blob_processed w1 (container m) (blob_name m) (etag m) \<or> \<not> downloads lib e m"
      unfolding w1 run_blobs_processed by auto
    then have "run_blobs lib c e ?ms w1 = w1" by (rule run_blobs_skip)
    then show ?thesis using run_once_exit_indep[OF r, of w1] by simp
  qed
  from 1 2 show ?thesis by blast
qed

section \<open>The order of commits\<close>

lemma wf_seg_Nil [simp]: "wf_seg []"
  by (simp add: wf_seg_def)

lemma wf_seg_snoc: "wf_seg (j @ [x]) \<longleftrightarrow> wf_seg j \<and> ok_next j x"
proof
  assume a: "wf_seg (j @ [x])"
  have "ok_next (take k j) (j ! k)" if "k < length j" for k
    using a[unfolded wf_seg_def, rule_format, of k] that by (simp add: nth_append)
  moreover have "ok_next j x"
    using a[unfolded wf_seg_def, rule_format, of "length j"] by simp
  ultimately show "wf_seg j \<and> ok_next j x" by (simp add: wf_seg_def)
next
  assume a: "wf_seg j \<and> ok_next j x"
  show "wf_seg (j @ [x])"
    unfolding wf_seg_def
  proof (intro allI impI)
    fix k assume "k < length (j @ [x])"
    then consider "k < length j" | "k = length j" by fastforce
    then show "ok_next (take k (j @ [x])) ((j @ [x]) ! k)"
    proof cases
      case 1
      then show ?thesis using a by (simp add: wf_seg_def nth_append)
    next
      case 2
      then show ?thesis using a by simp
    qed
  qed
qed

lemma seg_ok_refl: "seg_ok w w []"
  by (simp add: seg_ok_def cycle_trace_def)

lemma seg_ok_send: "seg_ok w w1 new \<Longrightarrow> seg_ok w (send c r ev w1) new"
  by (simp add: seg_ok_def cycle_trace_def)

lemma seg_ok_unmarked:
  "seg_ok w w1 new \<Longrightarrow> \<not> blob_processed w1 c n t \<Longrightarrow> BlobMarked c n \<notin> set new"
  by (auto simp: seg_ok_def cycle_trace_def)

lemma seg_ok_mark:
  assumes "seg_ok w w1 new"
  shows "seg_ok w (mark_blob w1 c n t) (new @ [BlobMarked c n])"
proof -
  have ct: "cycle_trace w w1 new" and wf: "wf_seg new"
    and ids: "\<forall>i c n. EventCommitted i c n \<in> set new \<longrightarrow> i \<le> seq_events w1"
    using assms by (simp_all add: seg_ok_def)
  have "cycle_trace w (mark_blob w1 c n t) (new @ [BlobMarked c n])"
    using ct unfolding cycle_trace_def blob_processed_mark
    by (auto simp: mark_blob_def)
  moreover have "wf_seg (new @ [BlobMarked c n])" using wf by (simp add: wf_seg_snoc)
  moreover have "\<forall>i c' n'. EventCommitted i c' n' \<in> set (new @ [BlobMarked c n])
                   \<longrightarrow> i \<le> seq_events (mark_blob w1 c n t)"
    using ids by (auto simp: mark_blob_def)
  ultimately show ?thesis by (simp add: seg_ok_def)
qed

lemma add_event_fields:
  assumes "add_event w1 c n ev = Inr (i, w2)"
  shows "i = Suc (seq_events w1)" "seq_events w2 = i"
    "journal w2 = journal w1 @ [EventCommitted i c n]"
    "db_alerts w2 = db_alerts w1" "db_processed w2 = db_processed w1"
    "map (\<lambda>r. (row_id r, row_container r, row_blob r)) (db_events w2)
       = map (\<lambda>r. (row_id r, row_container r, row_blob r)) (db_events w1) @ [(i, c, n)]"
  using assms by (auto simp: add_event_def Let_def split: option.splits)

lemma add_alert_fields:
  assumes "add_alert w1 r i = Inr w2"
  shows "seq_events w2 = seq_events w1"
    "journal w2 = journal w1 @ [AlertCommitted r i]"
    "db_events w2 = db_events w1" "db_processed w2 = db_processed w1"
    "map (\<lambda>a. (alert_rule a, alert_event a)) (db_alerts w2)
       = map (\<lambda>a. (alert_rule a, alert_event a)) (db_alerts w1) @ [(r, i)]"
  using assms by (auto simp: add_alert_def Let_def split: option.splits)

lemma seg_ok_add_event:
  assumes s: "seg_ok w w1 new" and u: "\<not> blob_processed w1 c n t"
    and a: "add_event w1 c n ev = Inr (i, w2)"
  shows "seg_ok w w2 (new @ [EventCommitted i c n])"
proof -
  have ct: "cycle_trace w w1 new" and wf: "wf_seg new"
    and ids: "\<forall>i c n. EventCommitted i c n \<in> set new \<longrightarrow> i \<le> seq_events w1"
    using s by (simp_all add: seg_ok_def)
  note f = add_event_fields[OF a]
  have bp: "blob_processed w2 c' n' t' = blob_processed w1 c' n' t'" for c' n' t'
    using f(5) by (simp add: blob_processed_def)
  have "cycle_trace w w2 (new @ [EventCommitted i c n])"
    using ct unfolding cycle_trace_def bp by (simp add: f)
  moreover have "ok_next new (EventCommitted i c n)"
    using seg_ok_unmarked[OF s u] ids f(1) by fastforce
  then have "wf_seg (new @ [EventCommitted i c n])" using wf by (simp add: wf_seg_snoc)
  moreover have "\<forall>x c' n'. EventCommitted x c' n' \<in> set (new @ [EventCommitted i c n])
                   \<longrightarrow> x \<le> seq_events w2"
    using ids f(1,2) by fastforce
  ultimately show ?thesis by (simp add: seg_ok_def)
qed

lemma seg_ok_add_alert:
  assumes s: "seg_ok w w1 new" and u: "\<not> blob_processed w1 c n t"
    and e: "EventCommitted i c n \<in> set new"
    and a: "add_alert w1 r i = Inr w2"
  shows "seg_ok w w2 (new @ [AlertCommitted r i])"
proof -
  have ct: "cycle_trace w w1 new" and wf: "wf_seg new"
    and ids: "\<forall>i c n. EventCommitted i c n \<in> set new \<longrightarrow> i \<le> seq_events w1"
    using s by (simp_all add: seg_ok_def)
  note f = add_alert_fields[OF a]
  have bp: "blob_processed w2 c' n' t' = blob_processed w1 c' n' t'" for c' n' t'
    using f(4) by (simp add: blob_processed_def)
  have "cycle_trace w w2 (new @ [AlertCommitted r i])"
    using ct unfolding cycle_trace_def bp by (simp add: f)
  moreover have "ok_next new (AlertCommitted r i)"
    using seg_ok_unmarked[OF s u] e by auto
  then have "wf_seg (new @ [AlertCommitted r i])" using wf by (simp add: wf_seg_snoc)
  moreover have "\<forall>x c' n'. EventCommitted x c' n' \<in> set (new @ [AlertCommitted r i])
                   \<longrightarrow> x \<le> seq_events w2"
    using ids f(1) by auto
  ultimately show ?thesis by (simp add: seg_ok_def)
qed

lemma apply_rules_seg:
  assumes "seg_ok w w1 new" and "\<not> blob_processed w1 cn n t"
    and "EventCommitted i cn n \<in> set new"
  shows "\<exists>new2. seg_ok w (snd (apply_rules lib c rs ev i w1)) new2"
  using assms
proof (induction rs arbitrary: w1 new)
  case Nil
  then show ?case by auto
next
  case (Cons rule rs)
  show ?case
  proof (cases "event_matches lib rule ev")
    case (Inl e)
    then show ?thesis using Cons.prems(1) by auto
  next
    case (Inr b)
    show ?thesis
    proof (cases b)
      case False
      then show ?thesis using Inr Cons.IH[OF Cons.prems] by simp
    next
      case True
      show ?thesis
      proof (cases "rule_name_of rule")
        case (Inl e)
        then show ?thesis using Inr True Cons.prems(1) by auto
      next
        case nm: (Inr nm)
        show ?thesis
        proof (cases "add_alert w1 nm i")
          case (Inl e)
          then show ?thesis using Inr True nm Cons.prems(1) by auto
        next
          case w2: (Inr w2)
          have 1: "seg_ok w w2 (new @ [AlertCommitted nm i])"
            using seg_ok_add_alert[OF Cons.prems(1,2,3) w2] .
          have 2: "seg_ok w (send c nm ev w2) (new @ [AlertCommitted nm i])"
            using 1 by (rule seg_ok_send)
          have 3: "\<not> blob_processed (send c nm ev w2) cn n t"
            using Cons.prems(2) add_alert_fields(4)[OF w2] by (simp add: blob_processed_def)
          have 4: "EventCommitted i cn n \<in> set (new @ [AlertCommitted nm i])"
            using Cons.prems(3) by simp
          from Cons.IH[OF 2 3 4] show ?thesis using Inr True nm w2 by simp
        qed
      qed
    qed
  qed
qed

lemma process_records_seg:
  assumes "seg_ok w w1 new" and "\<not> blob_processed w1 cn n t"
  shows "\<exists>new2. seg_ok w (snd (process_records lib c cn n recs w1)) new2"
  using assms
proof (induction recs arbitrary: w1 new)
  case Nil
  then show ?case by auto
next
  case (Cons rec recs)
  show ?case
  proof (cases "normalize_event lib cn rec")
    case (Inl e)
    then show ?thesis using Cons.prems(1) by auto
  next
    case (Inr ev)
    show ?thesis
    proof (cases "add_event w1 cn n ev")
      case (Inl e)
      then show ?thesis using Inr Cons.prems(1) by auto
    next
      case r: (Inr p)
      obtain i w2 where p: "p = (i, w2)" by (cases p)
      have a: "add_event w1 cn n ev = Inr (i, w2)" using r p by simp
      have 1: "seg_ok w w2 (new @ [EventCommitted i cn n])"
        using seg_ok_add_event[OF Cons.prems(1,2) a] .
      have 2: "\<not> blob_processed w2 cn n t"
        using Cons.prems(2) add_event_fields(5)[OF a] by (simp add: blob_processed_def)
      obtain x w3 where ar: "apply_rules lib c (cfg_rules c) ev i w2 = (x, w3)"
        by (cases "apply_rules lib c (cfg_rules c) ev i w2")
      obtain new3 where 3: "seg_ok w w3 new3"
        using apply_rules_seg[OF 1 2, of i lib c "cfg_rules c" ev] ar by auto
      have 4: "\<not> blob_processed w3 cn n t"
        using 2 apply_rules_processed[of lib c "cfg_rules c" ev i w2] ar
        by (simp add: blob_processed_def)
      show ?thesis
      proof (cases x)
        case None
        then show ?thesis using Inr a ar Cons.IH[OF 3 4] by simp
      next
        case (Some e)
        then show ?thesis using Inr a ar 3 by auto
      qed
    qed
  qed
qed

lemma handle_blob_seg:
  assumes "seg_ok w w1 new"
  shows "\<exists>new2. seg_ok w (handle_blob lib c e m w1) new2"
proof (cases "blob_processed w1 (container m) (blob_name m) (etag m)")
  case True
  then show ?thesis using assms by (auto simp: handle_blob_def)
next
  case False
  show ?thesis
  proof (cases "download_blob lib e (container m) (blob_name m)")
    case (Inl err)
    then show ?thesis using False assms by (auto simp: handle_blob_def)
  next
    case (Inr raw)
    obtain new2 where "seg_ok w (snd (process_records lib c (container m) (blob_name m)
                         (parse_blob_bytes lib raw) w1)) new2"
      using process_records_seg[OF assms False] by blast
    then have "seg_ok w (handle_blob lib c e m w1) (new2 @ [BlobMarked (container m) (blob_name m)])"
      using False Inr by (simp add: handle_blob_def seg_ok_mark)
    then show ?thesis by blast
  qed
qed

lemma run_blobs_seg:
  "seg_ok w w1 new \<Longrightarrow> \<exists>new2. seg_ok w (run_blobs lib c e ms w1) new2"
proof (induction ms arbitrary: w1 new)
  case Nil
  then show ?case by auto
next
  case (Cons m ms)
  obtain new2 where "seg_ok w (handle_blob lib c e m w1) new2"
    using handle_blob_seg[OF Cons.prems] by blast
  from Cons.IH[OF this] show ?case by simp
qed

lemma wf_seg_events_unique:
  assumes "wf_seg j" and "i < length j" and "i' < length j"
    and "j ! i = EventCommitted x c n" and "j ! i' = EventCommitted x c' n'"
  shows "i = i'"
proof (rule ccontr)
  assume ne: "i \<noteq> i'"
  have *: False if lt: "p < q" and q: "q < length j"
    and jp: "j ! p = EventCommitted x a b" and jq: "j ! q = EventCommitted x a' b'"
    for p q a b a' b'
  proof -
    have "ok_next (take q j) (j ! q)" using assms(1) q by (simp add: wf_seg_def)
    then have "EventCommitted x a b \<notin> set (take q j)" using jq by simp
    moreover have "j ! p \<in> set (take q j)"
      using lt q by (metis length_take min.absorb2 less_imp_le nth_mem nth_take)
    ultimately show False using jp by simp
  qed
  from ne consider "i < i'" | "i' < i" by linarith
  then show False using * assms by cases blast+
qed

lemma wf_seg_marker_last:
  assumes wf: "wf_seg j"
  shows "marker_last j"
  unfolding marker_last_def
proof (intro allI impI conjI)
  fix k c n i x
  assume k: "k < length j" and m: "j ! k = BlobMarked c n" and i: "i < length j"
    and e: "j ! i = EventCommitted x c n"
  show "i < k"
  proof (rule ccontr)
    assume "\<not> i < k"
    then have "k < i" using m e by (metis commit.distinct(3) linorder_neqE_nat)
    then have "j ! k \<in> set (take i j)"
      using i by (metis length_take min.absorb2 less_imp_le nth_mem nth_take)
    moreover have "ok_next (take i j) (j ! i)" using wf i by (simp add: wf_seg_def)
    ultimately show False using m e by simp
  qed
next
  fix k c n i r x
  assume k: "k < length j" and m: "j ! k = BlobMarked c n" and i: "i < length j"
    and a: "j ! i = AlertCommitted r x \<and> EventCommitted x c n \<in> set j"
  show "i < k"
  proof (rule ccontr)
    assume "\<not> i < k"
    then have ki: "k < i" using m a by (metis commit.distinct(5) linorder_neqE_nat)
    then have mk: "BlobMarked c n \<in> set (take i j)"
      using i m by (metis length_take min.absorb2 less_imp_le nth_mem nth_take)
    have "ok_next (take i j) (j ! i)" using wf i by (simp add: wf_seg_def)
    then obtain c' n' where in1: "EventCommitted x c' n' \<in> set (take i j)"
      and nm: "BlobMarked c' n' \<notin> set (take i j)" using a by auto
    obtain p where p: "p < length j" "j ! p = EventCommitted x c' n'"
      using in1 by (metis in_set_conv_nth in_set_takeD)
    obtain q where q: "q < length j" "j ! q = EventCommitted x c n"
      using a by (metis in_set_conv_nth)
    have "p = q" using wf_seg_events_unique[OF wf p(1) q(1) p(2) q(2)] .
    then have "c' = c \<and> n' = n" using p q by simp
    then show False using mk nm by simp
  qed
qed

lemma wf_seg_alerts_refer:
  assumes wf: "wf_seg j"
  shows "alerts_refer j"
  unfolding alerts_refer_def
proof (intro allI impI)
  fix i r x
  assume i: "i < length j" and a: "j ! i = AlertCommitted r x"
  have "ok_next (take i j) (j ! i)" using wf i by (simp add: wf_seg_def)
  then obtain c n where "EventCommitted x c n \<in> set (take i j)" using a by auto
  then obtain p where "p < length (take i j)" "take i j ! p = EventCommitted x c n"
    by (metis in_set_conv_nth)
  then have "p < i" "j ! p = EventCommitted x c n" by simp_all
  then show "\<exists>i' < i. \<exists>c n. j ! i' = EventCommitted x c n" by blast
qed

text \<open>
  C3. What a cycle commits is ordered: for every blob whose marker the cycle commits,
  each of the blob's events and each alert on one of them is committed before the
  marker, and every alert names an event committed before it. The commits are the
  rows that the tables gained.
\<close>

theorem commits_precede_marker:
  assumes "run_once lib c e w = Inr w1"
  shows "\<exists>new. cycle_trace w w1 new \<and> marker_last new \<and> alerts_refer new"
proof -
  have "w1 = run_blobs lib c e (iter_blobs e (cfg_containers c) (cfg_since_minutes c)) w"
    using assms by (rule run_once_cases)
  then obtain new where "seg_ok w w1 new"
    using run_blobs_seg[OF seg_ok_refl] by blast
  then show ?thesis
    using wf_seg_marker_last wf_seg_alerts_refer by (auto simp: seg_ok_def)
qed

section \<open>The loop of main\<close>


lemma run_once_no_conn:
  "\<not> has_conn c e \<Longrightarrow> run_once lib c e w = Inl 2"
  by (auto simp: has_conn_def run_once_def split: option.splits)




section \<open>The small configuration, run\<close>

lemma toy_run: "run_once toy_lib toy_cfg toy_env init_world = Inr toy_world"
  by (simp add: run_once_def conn_str_def toy_cfg_def toy_env_def iter_blobs_def is_stale_def
      handle_blob_def blob_processed_def init_world_def download_blob_def toy_lib_def
      parse_blob_bytes_def toy_loads_def two_lines_def py_strip_def is_space_def splitlines_def
      is_linebreak_def normalize_event_def flatten_def dict_get_def guess_category_def
      py_lower_def lower_char_def redact_str_def sas_keys_def py_replace_def add_event_def
      event_columns_def public_access_def event_matches_def ev_get_def py_str_def
      all_block_def any_block_def py_iter_def rule_name_of_def add_alert_def send_def
      mark_blob_def Let_def sublist_Cons_right suffix_to_prefix toy_world_def toy_event_def)



lemma toy_listing:
  "iter_blobs toy_env (cfg_containers toy_cfg) (cfg_since_minutes toy_cfg) =
     [\<lparr>container = ''insights-logs-storageread'', blob_name = ''a.json'', etag = None\<rparr>,
      \<lparr>container = ''insights-logs-storageread'', blob_name = ''b.json'', etag = None\<rparr>,
      \<lparr>container = ''insights-logs-storageread'', blob_name = ''c.json'', etag = None\<rparr>]"
  by (simp add: iter_blobs_def toy_env_def toy_cfg_def is_stale_def)

lemma toy_download_b:
  "download_blob toy_lib toy_env ''insights-logs-storageread'' ''b.json'' = Inl IOError"
  by (simp add: download_blob_def toy_env_def)

lemma toy_download_c:
  \<open>download_blob toy_lib toy_env ''insights-logs-storageread'' ''c.json''
     = Inr ''{"properties": 1}''\<close>
  by (simp add: download_blob_def toy_env_def toy_lib_def suffix_to_prefix)

lemma toy_records_c:
  \<open>process_records toy_lib toy_cfg ''insights-logs-storageread'' ''c.json''
     (parse_blob_bytes toy_lib ''{"properties": 1}'') init_world
     = (Some AttributeError, init_world)\<close>
  by (simp add: parse_blob_bytes_def toy_lib_def toy_loads_def py_strip_def is_space_def
      normalize_event_def flatten_def dict_get_def)

theorem commits_precede_marker_witness:
  "run_once toy_lib toy_cfg toy_env init_world = Inr toy_world
   \<and> (\<exists>new. cycle_trace init_world toy_world new \<and> marker_last new \<and> alerts_refer new)
   \<and> journal toy_world =
        [EventCommitted 1 ''insights-logs-storageread'' ''a.json'',
         AlertCommitted (JStr ''public-access'') 1,
         EventCommitted 2 ''insights-logs-storageread'' ''a.json'',
         BlobMarked ''insights-logs-storageread'' ''a.json'',
         BlobMarked ''insights-logs-storageread'' ''c.json'']"
  using commits_precede_marker[OF toy_run] toy_run by (simp add: toy_world_def)

theorem marked_iff_downloaded_witness:
  "\<not> blob_processed init_world ''insights-logs-storageread'' ''b.json'' None
   \<and> download_blob toy_lib toy_env ''insights-logs-storageread'' ''b.json'' = Inl IOError
   \<and> \<not> blob_processed toy_world ''insights-logs-storageread'' ''b.json'' None
   \<and> \<not> blob_processed init_world ''insights-logs-storageread'' ''c.json'' None
   \<and> blob_processed toy_world ''insights-logs-storageread'' ''c.json'' None
   \<and> handle_blob toy_lib toy_cfg toy_env
         \<lparr>container = ''insights-logs-storageread'', blob_name = ''c.json'', etag = None\<rparr>
         init_world
       = mark_blob init_world ''insights-logs-storageread'' ''c.json'' None"
proof -
  let ?b = "\<lparr>container = ''insights-logs-storageread'', blob_name = ''b.json'', etag = None\<rparr>"
  let ?c = "\<lparr>container = ''insights-logs-storageread'', blob_name = ''c.json'', etag = None\<rparr>"
  have nb: "\<not> blob_processed init_world (container ?b) (blob_name ?b) (etag ?b)"
    and nc: "\<not> blob_processed init_world (container ?c) (blob_name ?c) (etag ?c)"
    by (simp_all add: blob_processed_def init_world_def)
  have lb: "?b \<in> set (iter_blobs toy_env (cfg_containers toy_cfg) (cfg_since_minutes toy_cfg))"
    and lc: "?c \<in> set (iter_blobs toy_env (cfg_containers toy_cfg) (cfg_since_minutes toy_cfg))"
    by (simp_all add: toy_listing)
  from marked_iff_downloaded[OF toy_run lb nb] marked_iff_downloaded[OF toy_run lc nc]
    nb nc toy_download_b toy_download_c toy_records_c
  show ?thesis by simp
qed

theorem processed_blobs_add_nothing_witness:
  "list_all (\<lambda>m. blob_processed (mark_blob toy_world ''insights-logs-storageread'' ''b.json'' None)
                    (container m) (blob_name m) (etag m))
     (iter_blobs toy_env (cfg_containers toy_cfg) (cfg_since_minutes toy_cfg))
   \<and> run_once toy_lib toy_cfg toy_env
         (mark_blob toy_world ''insights-logs-storageread'' ''b.json'' None)
       = Inr (mark_blob toy_world ''insights-logs-storageread'' ''b.json'' None)
   \<and> db_events (mark_blob toy_world ''insights-logs-storageread'' ''b.json'' None)
       = db_events toy_world
   \<and> run_once toy_lib toy_cfg toy_env init_world = Inr toy_world
   \<and> run_once toy_lib toy_cfg toy_env toy_world = Inr toy_world"
proof -
  let ?w = "mark_blob toy_world ''insights-logs-storageread'' ''b.json'' None"
  let ?ms = "iter_blobs toy_env (cfg_containers toy_cfg) (cfg_since_minutes toy_cfg)"
  have a: "\<forall>m \<in> set ?ms. blob_processed ?w (container m) (blob_name m) (etag m)"
    by (simp add: toy_listing blob_processed_def mark_blob_def toy_world_def)
  then have l: "list_all (\<lambda>m. blob_processed ?w (container m) (blob_name m) (etag m)) ?ms"
    by (simp add: list_all_iff)
  have "run_blobs toy_lib toy_cfg toy_env ?ms ?w = ?w"
    using a by (intro run_blobs_skip) blast
  then have r: "run_once toy_lib toy_cfg toy_env ?w = Inr ?w"
    using run_once_exit_indep[OF toy_run, of ?w] by simp
  have 1: "db_events ?w = db_events ?w \<and> db_alerts ?w = db_alerts ?w"
    using processed_blobs_add_nothing[of toy_env toy_cfg ?w toy_lib] a r by blast
  have e: "db_events ?w = db_events toy_world"
    by (simp add: mark_blob_def)
  have 2: "run_once toy_lib toy_cfg toy_env toy_world = Inr toy_world"
    using processed_blobs_add_nothing[of toy_env toy_cfg init_world toy_lib] toy_run by blast
  show ?thesis
    using l r e toy_run 2 by (intro conjI)
qed

section \<open>The two modes\<close>






text \<open>
  C9, as stated, fails: the two fatal errors give the same exit code.
\<close>

theorem fatal_exit_codes_equal:
  "main toy_lib both_flags toy_cfg toy_envs init_world = Some (Exited 2 init_world)
   \<and> main toy_lib once_flag (toy_cfg\<lparr>cfg_connection_string := None\<rparr>) toy_envs init_world
       = Some (Exited 2 init_world)"
  by (simp add: main_def both_flags_def once_flag_def run_once_def conn_str_def toy_envs_def
      toy_env_def)

text \<open>
  C9, amended. Both fatal start-up errors end the process with exit code \<open>2\<close>: giving
  both \<open>--once\<close> and \<open>--loop\<close>, and having no connection string in the configuration or
  the environment. The code is not zero, and it is the same for both.
\<close>

theorem fatal_exit_codes:
  "(arg_once a \<and> arg_loop a \<longrightarrow> main lib a c envs w = Some (Exited 2 w))
   \<and> (\<not> has_conn c (envs 0) \<longrightarrow> main lib a c envs w = Some (Exited 2 w))"
proof -
  have "main lib a c envs w = Some (Exited 2 w)" if "\<not> has_conn c (envs 0)"
  proof -
    have r: "run_once lib c (envs 0) w = Inl 2" using that by (rule run_once_no_conn)
    have "main_loop lib c envs (interval_of a c) 0 w = Some (Exited 2 w)"
      by (subst main_loop.simps) (simp add: r)
    then show ?thesis by (simp add: main_def r)
  qed
  then show ?thesis by (simp add: main_def)
qed

theorem fatal_exit_codes_witness:
  "arg_once both_flags \<and> arg_loop both_flags
   \<and> main toy_lib both_flags toy_cfg toy_envs toy_world = Some (Exited 2 toy_world)
   \<and> \<not> has_conn (toy_cfg\<lparr>cfg_connection_string := Some []\<rparr>) (toy_envs 0)
   \<and> main toy_lib no_flags (toy_cfg\<lparr>cfg_connection_string := Some []\<rparr>) toy_envs toy_world
       = Some (Exited 2 toy_world)"
proof -
  have b: "arg_once both_flags \<and> arg_loop both_flags" by (simp add: both_flags_def)
  have n: "\<not> has_conn (toy_cfg\<lparr>cfg_connection_string := Some []\<rparr>) (toy_envs 0)"
    by (simp add: has_conn_def conn_str_def toy_envs_def toy_env_def)
  from fatal_exit_codes[of both_flags toy_lib toy_cfg toy_envs toy_world]
    fatal_exit_codes[of no_flags toy_lib "toy_cfg\<lparr>cfg_connection_string := Some []\<rparr>" toy_envs
      toy_world] b n
  show ?thesis by simp
qed

end
